theory Spec2Isabelle
  imports Main "HOL-Library.Sublist" "HOL-Library.Multiset"
begin

section \<open>Python strings\<close>

text \<open>
  A Python \<open>str\<close> is modelled as a HOL \<open>string\<close>, a character standing for the Unicode
  code point of the same number, so that the texts covered are those of code points
  below 256. The case mapping and the character classes are those of Python on these
  code points.
\<close>

text \<open>
  The characters that \<open>str.lower\<close> changes, each at the position of its image in
  \<open>lower_chars\<close>: \<open>A\<close> to \<open>Z\<close>, U+00C0 to U+00D6 and U+00D8 to U+00DE.
\<close>

definition upper_chars :: string where
  "upper_chars = ''ABCDEFGHIJKLMNOPQRSTUVWXYZ'' @
     [CHR 0xC0, CHR 0xC1, CHR 0xC2, CHR 0xC3, CHR 0xC4, CHR 0xC5, CHR 0xC6, CHR 0xC7,
      CHR 0xC8, CHR 0xC9, CHR 0xCA, CHR 0xCB, CHR 0xCC, CHR 0xCD, CHR 0xCE, CHR 0xCF,
      CHR 0xD0, CHR 0xD1, CHR 0xD2, CHR 0xD3, CHR 0xD4, CHR 0xD5, CHR 0xD6, CHR 0xD8,
      CHR 0xD9, CHR 0xDA, CHR 0xDB, CHR 0xDC, CHR 0xDD, CHR 0xDE]"

definition lower_chars :: string where
  "lower_chars = ''abcdefghijklmnopqrstuvwxyz'' @
     [CHR 0xE0, CHR 0xE1, CHR 0xE2, CHR 0xE3, CHR 0xE4, CHR 0xE5, CHR 0xE6, CHR 0xE7,
      CHR 0xE8, CHR 0xE9, CHR 0xEA, CHR 0xEB, CHR 0xEC, CHR 0xED, CHR 0xEE, CHR 0xEF,
      CHR 0xF0, CHR 0xF1, CHR 0xF2, CHR 0xF3, CHR 0xF4, CHR 0xF5, CHR 0xF6, CHR 0xF8,
      CHR 0xF9, CHR 0xFA, CHR 0xFB, CHR 0xFC, CHR 0xFD, CHR 0xFE]"

definition digit_chars :: string where
  "digit_chars = ''0123456789''"

text \<open>
  The other characters below 256 of which \<open>str.isalnum\<close> is true: the ordinal
  indicators, the superscript digits, the micro sign, the fractions, U+00DF and U+00FF.
\<close>

definition other_alnum_chars :: string where
  "other_alnum_chars =
     [CHR 0xAA, CHR 0xB2, CHR 0xB3, CHR 0xB5, CHR 0xB9, CHR 0xBA, CHR 0xBC, CHR 0xBD,
      CHR 0xBE, CHR 0xDF, CHR 0xFF]"

text \<open>
  \<open>str.isspace\<close>: tab, LF, VT, FF, CR, the separators U+001C to U+001F, space, U+0085
  and U+00A0. \<open>strip()\<close> and \<open>split()\<close> use the same class.
\<close>

definition space_chars :: string where
  "space_chars = [CHR 0x09, CHR 0x0A, CHR 0x0B, CHR 0x0C, CHR 0x0D,
                  CHR 0x1C, CHR 0x1D, CHR 0x1E, CHR 0x1F, CHR '' '', CHR 0x85, CHR 0xA0]"

definition lower_char :: "char \<Rightarrow> char" where
  "lower_char c = (case map_of (zip upper_chars lower_chars) c of Some d \<Rightarrow> d | None \<Rightarrow> c)"

definition lower :: "string \<Rightarrow> string" where
  "lower s = map lower_char s"

definition isalnum :: "char \<Rightarrow> bool" where
  "isalnum c = (c \<in> set (digit_chars @ upper_chars @ lower_chars @ other_alnum_chars))"

definition isspace :: "char \<Rightarrow> bool" where
  "isspace c = (c \<in> set space_chars)"

text \<open>\<open>s.strip()\<close>: leading and trailing whitespace removed.\<close>

definition strip :: "string \<Rightarrow> string" where
  "strip s = rev (dropWhile isspace (rev (dropWhile isspace s)))"

text \<open>
  \<open>s.split()\<close> with no separator: the maximal runs of non-whitespace characters.
  The first argument is the run read so far.
\<close>

fun split_run :: "string \<Rightarrow> string \<Rightarrow> string list" where
  "split_run w [] = (if w = [] then [] else [w])"
| "split_run w (c # cs) =
     (if isspace c then (if w = [] then split_run [] cs else w # split_run [] cs)
      else split_run (w @ [c]) cs)"

definition split_ws :: "string \<Rightarrow> string list" where
  "split_ws s = split_run [] s"

text \<open>\<open>k in t\<close> on strings: \<open>k\<close> occurs in \<open>t\<close> as a contiguous block.\<close>

fun py_in :: "string \<Rightarrow> string \<Rightarrow> bool" where
  "py_in k [] = (k = [])"
| "py_in k (c # cs) = (prefix k (c # cs) \<or> py_in k cs)"

text \<open>\<open>sep.join(xs)\<close>.\<close>

fun join :: "string \<Rightarrow> string list \<Rightarrow> string" where
  "join sep [] = []"
| "join sep [x] = x"
| "join sep (x # y # ys) = x @ sep @ join sep (y # ys)"

text \<open>
  A Python \<open>set\<close> of strings that the program iterates over is kept as a list without
  duplicates; the position of an element stands for the unspecified iteration order,
  and the theorems below speak about \<open>set\<close> of the list only.
\<close>

definition set_add :: "'a \<Rightarrow> 'a list \<Rightarrow> 'a list" where
  "set_add x xs = (if x \<in> set xs then xs else xs @ [x])"

section \<open>ContentFilter\<close>

record ContentFilter =
  sensitive_topics :: "(string \<times> string list) list"
  all_keywords :: "string set"

definition topic_table :: "(string \<times> string list) list" where
  "topic_table =
    [(''death'',
       [''rip'', ''rest in peace'', ''passed away'', ''death'', ''died'', ''dead'',
        ''condolences'', ''funeral'', ''mourning'', ''tragedy'', ''fatal'', ''killed'',
        ''loss'', ''gone too soon'', ''in loving memory'', ''memorial'']),
     (''tragedy'',
       [''accident'', ''disaster'', ''emergency'', ''crisis'', ''tragic'', ''devastated'',
        ''devastating'', ''horrible news'', ''terrible news'', ''catastrophe'']),
     (''health'',
       [''hospital'', ''sick'', ''illness'', ''disease'', ''cancer'', ''surgery'',
        ''diagnosed'', ''treatment'', ''health'', ''medical'', ''recovery'']),
     (''relationship'',
       [''breakup'', ''divorce'', ''separated'', ''break up'', ''broke up'',
        ''breaking up'', ''split up'', ''splitting up'', ''heartbreak'']),
     (''grief'',
       [''grief'', ''grieving'', ''sorry for your loss'', ''heartbroken'',
        ''devastating'', ''miss you'', ''missing you''])]"

text \<open>\<open>ContentFilter.__init__\<close>: the table, and the union of all its keyword lists.\<close>

definition ContentFilter_init :: ContentFilter where
  "ContentFilter_init =
     \<lparr> sensitive_topics = topic_table,
       all_keywords = fold (\<lambda>keywords acc. acc \<union> set keywords) (map snd topic_table) {} \<rparr>"

definition preprocess_text :: "string \<Rightarrow> string list" where
  "preprocess_text text0 =
     (let text1 = strip (lower text0);
          text2 = filter (\<lambda>char. isalnum char \<or> isspace char) text1
      in split_ws text2)"

text \<open>
  The first loop of \<open>contains_sensitive_content\<close>: every keyword of every topic is
  looked for in the lowercased text.
\<close>

definition scan_keywords :: "string \<Rightarrow> string \<Rightarrow> string list \<Rightarrow> string list \<Rightarrow> string list" where
  "scan_keywords text_lower topic keywords detected =
     fold (\<lambda>keyword d. if py_in keyword text_lower then set_add topic d else d) keywords detected"

definition scan_topics :: "ContentFilter \<Rightarrow> string \<Rightarrow> string list \<Rightarrow> string list" where
  "scan_topics self text_lower detected =
     fold (\<lambda>(topic, keywords) d. scan_keywords text_lower topic keywords d)
       (sensitive_topics self) detected"

text \<open>
  The second loop: \<open>words[i] + ' ' + words[i+1]\<close> for \<open>i\<close> in
  \<open>range(len(words) - 1)\<close>, each looked up in \<open>all_keywords\<close> and then in every topic.
\<close>

fun bigrams :: "string list \<Rightarrow> string list" where
  "bigrams (a # b # ws) = (a @ '' '' @ b) # bigrams (b # ws)"
| "bigrams ws = []"

definition topics_of :: "ContentFilter \<Rightarrow> string \<Rightarrow> string list \<Rightarrow> string list" where
  "topics_of self bigram detected =
     fold (\<lambda>(topic, keywords) d. if bigram \<in> set keywords then set_add topic d else d)
       (sensitive_topics self) detected"

definition scan_bigrams :: "ContentFilter \<Rightarrow> string list \<Rightarrow> string list \<Rightarrow> string list" where
  "scan_bigrams self words detected =
     fold (\<lambda>bigram d. if bigram \<in> all_keywords self then topics_of self bigram d else d)
       (bigrams words) detected"

text \<open>
  \<open>contains_sensitive_content(text)\<close>. The argument is \<open>None\<close> or a string; both
  \<open>None\<close> and the empty string are falsy and return at the first guard.
\<close>

definition contains_sensitive_content :: "ContentFilter \<Rightarrow> string option \<Rightarrow> bool \<times> string list" where
  "contains_sensitive_content self text0 =
     (case text0 of
        None \<Rightarrow> (False, [])
      | Some t \<Rightarrow>
          if t = [] then (False, [])
          else
            let text_lower = lower t;
                words = preprocess_text t;
                detected = scan_topics self text_lower [];
                detected = scan_bigrams self words detected
            in (length detected > 0, detected))"

section \<open>BlueskyBot\<close>

text \<open>
  A feed entry is the JSON object the feed endpoint returns, typed after the keys the bot
  reads. Any key may be missing, which is what raises \<open>KeyError\<close> in the source; a key
  that is present holds a value of its schema type. Console output is not modelled.
\<close>

datatype py_error = KeyError | FileNotFoundError

record post_record =
  rec_text :: "string option"

record post_view =
  pv_uri :: "string option"
  pv_cid :: "string option"
  pv_record :: "post_record option"

record reply_ref =
  rr_root :: "post_view option"

record feed_item =
  fi_post :: "post_view option"
  fi_reply :: "reply_ref option"

text \<open>
  The file \<open>replied_posts.json\<close>: absent, not parseable as JSON, or a JSON array of
  strings.
\<close>

datatype replied_file = Missing | Malformed | JsonArray "string list"

datatype image_read = ImageData string | ImageNotFound | ImageError

text \<open>One call of \<open>client.send_image\<close>; a reference is a pair of uri and cid.\<close>

record dispatch =
  d_text :: string
  d_image :: string
  d_image_alt :: string
  d_parent :: "string \<times> string"
  d_root :: "string \<times> string"

text \<open>
  The collaborators: reading the image file, the outcome of a \<open>send_image\<close> call
  (\<open>False\<close> when it raises) and whether the replied-posts file can be written.
\<close>

record world =
  read_image :: "string \<Rightarrow> image_read"
  send_image :: "dispatch \<Rightarrow> bool"
  write_ok :: bool

text \<open>
  The bot object, with the content of its file and the \<open>send_image\<close> calls issued so
  far, in order.
\<close>

record BlueskyBot =
  replied_posts :: "string list"
  replied_file :: replied_file
  sent :: "dispatch list"
  content_filter :: ContentFilter

definition load_replied_posts :: "replied_file \<Rightarrow> string list" where
  "load_replied_posts f =
     (case f of
        JsonArray uris \<Rightarrow> remdups uris
      | Missing \<Rightarrow> []
      | Malformed \<Rightarrow> [])"

definition save_replied_posts :: "BlueskyBot \<Rightarrow> BlueskyBot" where
  "save_replied_posts self = self\<lparr>replied_file := JsonArray (replied_posts self)\<rparr>"

text \<open>\<open>post['post']['record']['text']\<close>.\<close>

definition post_text :: "feed_item \<Rightarrow> py_error + string" where
  "post_text post =
     (case fi_post post of
        None \<Rightarrow> Inl KeyError
      | Some pv \<Rightarrow>
          (case pv_record pv of
             None \<Rightarrow> Inl KeyError
           | Some r \<Rightarrow>
               (case rec_text r of
                  None \<Rightarrow> Inl KeyError
                | Some t \<Rightarrow> Inr t)))"

definition should_reply_to_post :: "BlueskyBot \<Rightarrow> feed_item \<Rightarrow> bool \<times> string" where
  "should_reply_to_post self post =
     (case post_text post of
        Inl e \<Rightarrow> (True, ''No text content'')
      | Inr t \<Rightarrow>
          (case contains_sensitive_content (content_filter self) (Some t) of
             (has_sensitive_content, topics) \<Rightarrow>
               if has_sensitive_content
               then (False, ''Post contains sensitive topics: '' @ join '', '' topics)
               else (True, ''Content appropriate for reply'')))"

definition extract_reply_info :: "feed_item \<Rightarrow> post_view option \<times> post_view option" where
  "extract_reply_info post =
     (case fi_reply post of
        None \<Rightarrow> (None, None)
      | Some reply_info \<Rightarrow>
          (case rr_root reply_info of
             None \<Rightarrow> (None, None)
           | Some root \<Rightarrow>
               (case fi_post post of
                  None \<Rightarrow> (None, None)
                | Some parent \<Rightarrow> (Some parent, Some root))))"

text \<open>Truth value of a dictionary: it has a key.\<close>

definition truthy :: "post_view \<Rightarrow> bool" where
  "truthy pv = (pv_uri pv \<noteq> None \<or> pv_cid pv \<noteq> None \<or> pv_record pv \<noteq> None)"

text \<open>\<open>{"uri": v['uri'], "cid": v['cid']}\<close>; \<open>None\<close> is the \<open>KeyError\<close>.\<close>

definition strong_ref :: "post_view \<Rightarrow> (string \<times> string) option" where
  "strong_ref v =
     (case pv_uri v of
        None \<Rightarrow> None
      | Some u \<Rightarrow> (case pv_cid v of None \<Rightarrow> None | Some c \<Rightarrow> Some (u, c)))"

text \<open>
  The parent and root references of the reply, as the \<open>try\<close> block builds them;
  \<open>None\<close> when building them raises.
\<close>

definition reply_refs :: "feed_item \<Rightarrow> ((string \<times> string) \<times> (string \<times> string)) option" where
  "reply_refs post =
     (let own = (case fi_post post of
                   None \<Rightarrow> None
                 | Some pv \<Rightarrow> (case strong_ref pv of None \<Rightarrow> None | Some r \<Rightarrow> Some (r, r)))
      in case extract_reply_info post of
           (Some parent, Some root) \<Rightarrow>
             if truthy parent \<and> truthy root
             then (case strong_ref parent of
                     None \<Rightarrow> None
                   | Some p \<Rightarrow> (case strong_ref root of None \<Rightarrow> None | Some r \<Rightarrow> Some (p, r)))
             else own
         | _ \<Rightarrow> own)"

text \<open>
  \<open>reply_to_post\<close>: the result (\<open>Inl\<close> when \<open>post['post']['uri']\<close> raises) and the bot
  afterwards. \<open>log_post_details\<close> only prints and is left out. Every exception inside
  the \<open>try\<close> block, a failed write of the file included, ends in \<open>return False\<close>.
\<close>

definition reply_to_post ::
  "world \<Rightarrow> BlueskyBot \<Rightarrow> feed_item \<Rightarrow> string \<Rightarrow> string \<Rightarrow> (py_error + bool) \<times> BlueskyBot" where
  "reply_to_post w self post reply_text image_path =
     (case fi_post post of
        None \<Rightarrow> (Inl KeyError, self)
      | Some pv \<Rightarrow>
     (case pv_uri pv of
        None \<Rightarrow> (Inl KeyError, self)
      | Some post_uri \<Rightarrow>
          if \<not> fst (should_reply_to_post self post) then (Inr False, self)
          else if post_uri \<in> set (replied_posts self) then (Inr False, self)
          else
            (case read_image w image_path of
               ImageNotFound \<Rightarrow> (Inr False, self)
             | ImageError \<Rightarrow> (Inr False, self)
             | ImageData img_data \<Rightarrow>
                 (case reply_refs post of
                    None \<Rightarrow> (Inr False, self)
                  | Some (parent_strong_ref, root_strong_ref) \<Rightarrow>
                      let call = \<lparr> d_text = reply_text, d_image = img_data,
                                   d_image_alt = ''A cute dog'',
                                   d_parent = parent_strong_ref, d_root = root_strong_ref \<rparr>;
                          self1 = self\<lparr>sent := sent self @ [call]\<rparr>
                      in if \<not> send_image w call then (Inr False, self1)
                         else
                           let self2 = self1\<lparr>replied_posts := set_add post_uri (replied_posts self1)\<rparr>
                           in if write_ok w then (Inr True, save_replied_posts self2)
                              else (Inr False, self2)))))"

text \<open>
  The dataset CSV, below its header line: one row per processed entry.
\<close>

record dataset_row =
  row_id :: int
  twitter_url :: string
  local_image_path :: string
  reply_text :: string

text \<open>The loop of \<open>get_random_content\<close> over the rows, with its early return.\<close>

fun scan_rows :: "int \<Rightarrow> dataset_row list \<Rightarrow> string option \<times> string option" where
  "scan_rows x [] = (None, None)"
| "scan_rows x (row # reader) =
     (if row_id row = x then (Some (local_image_path row), Some (reply_text row))
      else scan_rows x reader)"

text \<open>
  \<open>get_random_content\<close>; \<open>randint\<close> is \<open>random.randint\<close>, and the file is \<open>None\<close> when
  \<open>twitter_data.csv\<close> does not exist.
\<close>

definition get_random_content ::
  "(int \<Rightarrow> int \<Rightarrow> int) \<Rightarrow> dataset_row list option \<Rightarrow> py_error + (string option \<times> string option)" where
  "get_random_content randint file =
     (let x = randint 1 514
      in case file of
           None \<Rightarrow> Inl FileNotFoundError
         | Some reader \<Rightarrow> Inr (scan_rows x reader))"

section \<open>Dataset builder\<close>

text \<open>
  \<open>s.split(sep)\<close> for a non-empty separator: the pieces between the occurrences of
  \<open>sep\<close>, read left to right. The second argument is the piece read so far. (Python
  raises on an empty separator; the source never passes one.)
\<close>

function py_split :: "string \<Rightarrow> string \<Rightarrow> string \<Rightarrow> string list" where
  "py_split sep cur [] = [cur]"
| "py_split sep cur (c # cs) =
     (if sep \<noteq> [] \<and> prefix sep (c # cs)
      then cur # py_split sep [] (drop (length sep) (c # cs))
      else py_split sep (cur @ [c]) cs)"
  by pat_completeness auto
termination
  by (relation "measure (\<lambda>(sep, cur, s). length s)") (auto simp: neq_Nil_conv)

text \<open>
  \<open>int(s)\<close> on a string: surrounding whitespace, an optional sign, then decimal digits
  that single underscores may separate. \<open>None\<close> is the \<open>ValueError\<close>. The whitespace
  that \<open>int\<close> skips is tab, LF, VT, FF, CR, space, U+0085 and U+00A0, not the separators
  U+001C to U+001F; and a string of more than 4300 digits, the interpreter's default
  limit, is refused.
\<close>

definition int_space_chars :: string where
  "int_space_chars = [CHR 0x09, CHR 0x0A, CHR 0x0B, CHR 0x0C, CHR 0x0D, CHR '' '',
                      CHR 0x85, CHR 0xA0]"

definition int_max_str_digits :: nat where
  "int_max_str_digits = 4300"

definition int_strip :: "string \<Rightarrow> string" where
  "int_strip s =
     rev (dropWhile (\<lambda>c. c \<in> set int_space_chars)
            (rev (dropWhile (\<lambda>c. c \<in> set int_space_chars) s)))"

definition digit_value :: "char \<Rightarrow> int" where
  "digit_value c = int (length (takeWhile (\<lambda>d. d \<noteq> c) digit_chars))"

definition digits_ok :: "string \<Rightarrow> bool" where
  "digits_ok body =
     list_all (\<lambda>part. part \<noteq> [] \<and> list_all (\<lambda>c. c \<in> set digit_chars) part)
       (py_split ''_'' [] body)"

definition py_int :: "string \<Rightarrow> int option" where
  "py_int s =
     (let t = int_strip s;
          neg = (t \<noteq> [] \<and> hd t = CHR ''-'');
          body = (if t \<noteq> [] \<and> (hd t = CHR ''-'' \<or> hd t = CHR ''+'') then tl t else t);
          digits = filter (\<lambda>c. c \<noteq> CHR ''_'') body;
          n = foldl (\<lambda>a c. 10 * a + digit_value c) 0 digits
      in if digits_ok body \<and> length digits \<le> int_max_str_digits
         then Some (if neg then - n else n) else None)"

text \<open>An image element of the page, with the attributes the scraper asks for.\<close>

record element =
  src :: "string option"
  width :: "string option"
  height :: "string option"

text \<open>
  What \<open>driver.get\<close> and the waits give on one attempt: the load raises, or the page
  answers each selector with its elements (\<open>None\<close> when the wait raises).
\<close>

datatype page_load = LoadError | Loaded "string \<Rightarrow> element list option"

definition selectors :: "string list" where
  \<open>selectors =
     [''img[alt="Image"]'',
      ''div[data-testid="tweetPhoto"] img'',
      ''div[data-testid="tweet"] img'',
      ''article img'',
      ''div[role="article"] img'']\<close>

text \<open>\<open>int(element.get_attribute(a) or 0)\<close>; \<open>None\<close> is the \<open>ValueError\<close>.\<close>

definition dimension :: "string option \<Rightarrow> int option" where
  "dimension a =
     (case a of
        None \<Rightarrow> Some 0
      | Some s \<Rightarrow> if s = [] then Some 0 else py_int s)"

text \<open>The body of the loop over the elements: the source to append, if any.\<close>

definition valid_image :: "element \<Rightarrow> string option" where
  "valid_image e =
     (case src e of
        None \<Rightarrow> None
      | Some s \<Rightarrow>
          if s \<noteq> [] \<and> \<not> py_in ''profile'' (lower s) \<and> \<not> py_in ''avatar'' (lower s)
          then (case dimension (width e) of
                  None \<Rightarrow> Some s
                | Some w \<Rightarrow>
                    (case dimension (height e) of
                       None \<Rightarrow> Some s
                     | Some h \<Rightarrow> if w * h > 10000 then Some s else None))
          else None)"

definition valid_images :: "element list \<Rightarrow> string list" where
  "valid_images elements = List.map_filter valid_image elements"

definition large_format :: "string \<Rightarrow> string" where
  "large_format image_url =
     (if py_in ''?format='' image_url
      then hd (py_split ''?format='' [] image_url) @ ''?format=jpg&name=large''
      else image_url)"

fun scan_selectors :: "(string \<Rightarrow> element list option) \<Rightarrow> string list \<Rightarrow> string option" where
  "scan_selectors page [] = None"
| "scan_selectors page (selector # rest) =
     (case page selector of
        None \<Rightarrow> scan_selectors page rest
      | Some elements \<Rightarrow>
          (case valid_images elements of
             [] \<Rightarrow> scan_selectors page rest
           | image_url # others \<Rightarrow> Some (large_format image_url)))"

text \<open>
  The retry loop of \<open>get_image_url_from_tweet\<close>: \<open>driver attempt\<close> is what the tweet's
  page gives on that attempt; the waits between attempts are not modelled.
\<close>

fun retry_from :: "(nat \<Rightarrow> page_load) \<Rightarrow> nat \<Rightarrow> nat \<Rightarrow> string option" where
  "retry_from driver attempt 0 = None"
| "retry_from driver attempt (Suc remaining) =
     (case driver attempt of
        LoadError \<Rightarrow> retry_from driver (Suc attempt) remaining
      | Loaded page \<Rightarrow>
          (case scan_selectors page selectors of
             Some image_url \<Rightarrow> Some image_url
           | None \<Rightarrow> retry_from driver (Suc attempt) remaining))"

definition get_image_url_from_tweet :: "(nat \<Rightarrow> page_load) \<Rightarrow> nat \<Rightarrow> string option" where
  "get_image_url_from_tweet driver max_retries = retry_from driver 0 max_retries"

text \<open>
  \<open>extract_data_from_code\<close>, from the matches of the pattern in file order (the number
  of group 1, groups 2 and 3).
\<close>

definition extract_data_from_code :: "(int \<times> string \<times> string) list \<Rightarrow> (int \<times> string \<times> string) list" where
  "extract_data_from_code matches =
     sort_key fst (map (\<lambda>(n, url, caption). (n, strip url, caption)) matches)"

text \<open>The browser pages by tweet URL and attempt, and the outcome of \<open>download_image\<close>.\<close>

record web =
  driver_get :: "string \<Rightarrow> nat \<Rightarrow> page_load"
  download_image :: "string \<Rightarrow> string \<Rightarrow> bool"

text \<open>\<open>os.path.join(a, b)\<close> on POSIX paths.\<close>

definition path_join :: "string \<Rightarrow> string \<Rightarrow> string" where
  "path_join a b =
     (if b \<noteq> [] \<and> hd b = CHR ''/'' then b
      else if a = [] \<or> last a = CHR ''/'' then a @ b
      else a @ ''/'' @ b)"

text \<open>\<open>url.split('status/')[1].split('/')[0]\<close>; \<open>None\<close> is the \<open>IndexError\<close>.\<close>

definition tweet_id_of :: "string \<Rightarrow> string option" where
  "tweet_id_of url =
     (case py_split ''status/'' [] url of
        a # b # rest \<Rightarrow> Some (hd (py_split ''/'' [] b))
      | _ \<Rightarrow> None)"

text \<open>The body of the loop over the entries: the row it writes.\<close>

fun process_entry :: "web \<Rightarrow> string \<Rightarrow> int \<times> string \<times> string \<Rightarrow> dataset_row" where
  "process_entry w images_dir (id_num, url, caption) =
     (let row = (\<lambda>cell. \<lparr> row_id = id_num, twitter_url = url,
                           local_image_path = cell, reply_text = caption \<rparr>)
      in (case get_image_url_from_tweet (driver_get w url) 3 of
            None \<Rightarrow> row ''No image found''
          | Some image_url \<Rightarrow>
              (if image_url = [] then row ''No image found''
               else
                 (case tweet_id_of url of
                    None \<Rightarrow> row ''Error: list index out of range''
                  | Some tweet_id \<Rightarrow>
                      (let save_path = path_join images_dir (''twitter_'' @ tweet_id @ ''.jpg'')
                       in (if download_image w image_url save_path then row save_path
                           else row ''Failed to download''))))))"

text \<open>
  The entries left after the resume filter: the list \<open>data\<close> that the main loop of
  \<open>process_twitter_data\<close> runs over. The output CSV is \<open>None\<close> when it does not exist.
\<close>

definition pending_entries ::
  "(int \<times> string \<times> string) list \<Rightarrow> dataset_row list option \<Rightarrow> int \<Rightarrow> (int \<times> string \<times> string) list" where
  "pending_entries matches output_csv start_from =
     (let processed_ids = (case output_csv of
                             None \<Rightarrow> {}
                           | Some reader \<Rightarrow> set (map row_id reader));
          data = extract_data_from_code matches
      in filter (\<lambda>(id_num, url, caption). id_num \<ge> start_from \<and> id_num \<notin> processed_ids) data)"

text \<open>
  \<open>process_twitter_data\<close>: the rows of the output CSV afterwards. The browser is taken
  to start; the pauses between entries are not modelled.
\<close>

definition process_twitter_data ::
  "web \<Rightarrow> (int \<times> string \<times> string) list \<Rightarrow> dataset_row list option \<Rightarrow> string \<Rightarrow> int \<Rightarrow> dataset_row list" where
  "process_twitter_data w matches output_csv images_dir start_from =
     (let data = pending_entries matches output_csv start_from;
          existing = (case output_csv of None \<Rightarrow> [] | Some reader \<Rightarrow> reader)
      in existing @ map (process_entry w images_dir) data)"

section \<open>Sample values\<close>

definition sample_bot :: "string list \<Rightarrow> BlueskyBot" where
  "sample_bot uris =
     \<lparr> replied_posts = uris, replied_file = JsonArray uris, sent = [],
       content_filter = ContentFilter_init \<rparr>"

definition sample_post :: "string option \<Rightarrow> feed_item" where
  "sample_post t =
     \<lparr> fi_post = Some \<lparr> pv_uri = Some ''at://x/1'', pv_cid = Some ''c1'',
                         pv_record = Some \<lparr> rec_text = t \<rparr> \<rparr>,
       fi_reply = None \<rparr>"

definition sample_world :: "bool \<Rightarrow> world" where
  "sample_world up =
     \<lparr> read_image = (\<lambda>path. ImageData ''jpeg''), send_image = (\<lambda>call. up), write_ok = True \<rparr>"

definition sample_call :: dispatch where
  "sample_call =
     \<lparr> d_text = ''woof'', d_image = ''jpeg'', d_image_alt = ''A cute dog'',
       d_parent = (''at://x/1'', ''c1''), d_root = (''at://x/1'', ''c1'') \<rparr>"

definition sample_row :: "int \<Rightarrow> dataset_row" where
  "sample_row i =
     \<lparr> row_id = i, twitter_url = ''u'', local_image_path = ''p'', reply_text = ''c'' \<rparr>"

definition sample_rows :: "dataset_row list" where
  "sample_rows = map sample_row [1, 2, 3, 4, 5, 6, 7, 8, 9, 10]"

definition sample_matches :: "(int \<times> string \<times> string) list" where
  "sample_matches = map (\<lambda>i. (i, ''u'', ''c'')) [12, 3, 11, 7, 5, 1, 10]"

definition bare_image :: element where
  "bare_image = \<lparr> src = Some ''https://pbs.twimg.com/media/a.jpg'', width = None, height = None \<rparr>"

definition sized_image :: element where
  "sized_image =
     \<lparr> src = Some ''https://pbs.twimg.com/media/b?format=png&name=small'',
       width = Some ''680'', height = Some ''380'' \<rparr>"

definition odd_image :: element where
  "odd_image =
     \<lparr> src = Some ''https://pbs.twimg.com/media/c.jpg'', width = Some ''auto'', height = None \<rparr>"

definition nbsp_text :: string where
  "nbsp_text = ''Passed'' @ [CHR 0xA0] @ ''AWAY''"

definition sample_page :: "element list \<Rightarrow> nat \<Rightarrow> page_load" where
  "sample_page elements attempt = Loaded (\<lambda>selector. Some elements)"

section \<open>Facts about the string functions\<close>

lemmas string_eval = lower_def lower_char_def upper_chars_def lower_chars_def strip_def
  isspace_def space_chars_def isalnum_def digit_chars_def other_alnum_chars_def split_ws_def

lemma py_in_sublist: "py_in k t = sublist k t"
  by (induction t) (auto simp: sublist_Cons_right)

lemma set_set_add: "set (set_add x xs) = insert x (set xs)"
  by (auto simp: set_add_def)

section \<open>The classifier\<close>

subsection \<open>What the two loops collect\<close>

lemma set_scan_keywords:
  "set (scan_keywords txt topic kws d) =
     set d \<union> (if list_ex (\<lambda>k. py_in k txt) kws then {topic} else {})"
  unfolding scan_keywords_def
  by (induction kws arbitrary: d) (auto simp: set_set_add)

lemma set_fold_scan:
  "set (fold (\<lambda>(topic, kws) d. scan_keywords txt topic kws d) table d) =
     set d \<union> {topic. \<exists>kws. (topic, kws) \<in> set table \<and> list_ex (\<lambda>k. py_in k txt) kws}"
  by (induction table arbitrary: d) (auto simp: set_scan_keywords split: if_splits)

lemma set_scan_topics:
  "set (scan_topics self txt d) =
     set d \<union> {topic. \<exists>kws. (topic, kws) \<in> set (sensitive_topics self)
                        \<and> list_ex (\<lambda>k. py_in k txt) kws}"
  unfolding scan_topics_def by (rule set_fold_scan)

lemma set_fold_topics_of:
  "set (fold (\<lambda>(topic, kws) d. if b \<in> set kws then set_add topic d else d) table d) =
     set d \<union> {topic. \<exists>kws. (topic, kws) \<in> set table \<and> b \<in> set kws}"
  by (induction table arbitrary: d) (auto simp: set_set_add split: if_splits)

lemma set_topics_of:
  "set (topics_of self b d) =
     set d \<union> {topic. \<exists>kws. (topic, kws) \<in> set (sensitive_topics self) \<and> b \<in> set kws}"
  unfolding topics_of_def by (rule set_fold_topics_of)

lemma set_fold_bigrams:
  "set (fold (\<lambda>bigram d. if bigram \<in> K then topics_of self bigram d else d) bs d) =
     set d \<union> {topic. \<exists>b kws. b \<in> set bs \<and> b \<in> K
                   \<and> (topic, kws) \<in> set (sensitive_topics self) \<and> b \<in> set kws}"
  by (induction bs arbitrary: d) (auto simp: set_topics_of split: if_splits)

lemma set_scan_bigrams:
  "set (scan_bigrams self ws d) =
     set d \<union> {topic. \<exists>b kws. b \<in> set (bigrams ws) \<and> b \<in> all_keywords self
                   \<and> (topic, kws) \<in> set (sensitive_topics self) \<and> b \<in> set kws}"
  unfolding scan_bigrams_def by (rule set_fold_bigrams)

lemma fold_union: "fold (\<lambda>kws acc. acc \<union> set kws) ks A = A \<union> \<Union> (set ` set ks)"
  by (induction ks arbitrary: A) auto

lemma all_keywords_init:
  "all_keywords ContentFilter_init = \<Union> (set ` snd ` set topic_table)"
  by (simp add: ContentFilter_init_def fold_union)

lemma kw_list: "all_keywords ContentFilter_init = set (concat (map snd topic_table))"
  by (simp add: all_keywords_init)

lemma sensitive_topics_init: "sensitive_topics ContentFilter_init = topic_table"
  by (simp add: ContentFilter_init_def)

lemma in_all_keywords_iff:
  "k \<in> all_keywords ContentFilter_init \<longleftrightarrow>
     (\<exists>topic kws. (topic, kws) \<in> set (sensitive_topics ContentFilter_init) \<and> k \<in> set kws)"
  by (force simp: all_keywords_init sensitive_topics_init)

lemma keywords_nonempty:
  "(topic, kws) \<in> set topic_table \<Longrightarrow> k \<in> set kws \<Longrightarrow> k \<noteq> []"
  by (auto simp: topic_table_def)

lemma detected_unfold:
  "t \<noteq> [] \<Longrightarrow> snd (contains_sensitive_content self (Some t)) =
      scan_bigrams self (preprocess_text t) (scan_topics self (lower t) [])"
  "t \<noteq> [] \<Longrightarrow> fst (contains_sensitive_content self (Some t)) =
      (scan_bigrams self (preprocess_text t) (scan_topics self (lower t) []) \<noteq> [])"
  by (simp_all add: contains_sensitive_content_def Let_def)

lemma scan_topics_empty_iff:
  "scan_topics self txt [] = [] \<longleftrightarrow>
     \<not> (\<exists>topic kws k. (topic, kws) \<in> set (sensitive_topics self) \<and> k \<in> set kws \<and> sublist k txt)"
proof -
  have "scan_topics self txt [] = [] \<longleftrightarrow> set (scan_topics self txt []) = {}" by simp
  also have "\<dots> \<longleftrightarrow> \<not> (\<exists>topic kws k. (topic, kws) \<in> set (sensitive_topics self) \<and> k \<in> set kws \<and> sublist k txt)"
    unfolding set_scan_topics by (auto simp: list_ex_iff py_in_sublist)
  finally show ?thesis .
qed

lemma scan_topics_empty:
  assumes "\<forall>k \<in> all_keywords ContentFilter_init. \<not> sublist k txt"
  shows "scan_topics ContentFilter_init txt [] = []"
proof -
  have "\<not> (\<exists>topic kws k. (topic, kws) \<in> set (sensitive_topics ContentFilter_init) \<and> k \<in> set kws \<and> sublist k txt)"
  proof
    assume "\<exists>topic kws k. (topic, kws) \<in> set (sensitive_topics ContentFilter_init) \<and> k \<in> set kws \<and> sublist k txt"
    then obtain topic kws k where
      *: "(topic, kws) \<in> set (sensitive_topics ContentFilter_init)" "k \<in> set kws" "sublist k txt"
      by blast
    from *(1,2) have "k \<in> all_keywords ContentFilter_init"
      unfolding in_all_keywords_iff by blast
    with assms *(3) show False by blast
  qed
  then show ?thesis unfolding scan_topics_empty_iff .
qed

lemma scan_bigrams_empty:
  "\<not> (\<exists>b. b \<in> set (bigrams ws) \<and> b \<in> all_keywords self) \<Longrightarrow> scan_bigrams self ws [] = []"
proof -
  assume "\<not> (\<exists>b. b \<in> set (bigrams ws) \<and> b \<in> all_keywords self)"
  then have "set (scan_bigrams self ws []) = {}"
    unfolding set_scan_bigrams by auto
  then show ?thesis by simp
qed

text \<open>The pairs are those of neighbouring positions, as the source's index loop forms them.\<close>

lemma upt_0_Suc: "[0..<Suc n] = 0 # map Suc [0..<n]"
  by (metis map_Suc_upt upt_conv_Cons zero_less_Suc)

lemma bigrams_nth:
  "bigrams ws = map (\<lambda>i. ws ! i @ '' '' @ ws ! (i + 1)) [0..<length ws - 1]"
proof (induction ws rule: bigrams.induct)
  case (1 a b ws)
  then show ?case by (simp add: upt_0_Suc comp_def del: upt_Suc)
qed simp_all

subsection \<open>Sample texts\<close>

lemma ex1_lower: "lower ''Check out this cute dog photo!'' = ''check out this cute dog photo!''"
  by (simp add: string_eval)

lemma ex1_words: "preprocess_text ''Check out this cute dog photo!'' =
    [''check'', ''out'', ''this'', ''cute'', ''dog'', ''photo'']"
  by (simp add: preprocess_text_def ex1_lower) (simp add: string_eval)

lemma ex1_scan: "scan_topics ContentFilter_init ''check out this cute dog photo!'' [] = []"
  by (simp add: ContentFilter_init_def topic_table_def scan_topics_def scan_keywords_def set_add_def)

lemma ex1_bigrams: "list_all (\<lambda>b. b \<notin> set (concat (map snd topic_table)))
   (bigrams [''check'', ''out'', ''this'', ''cute'', ''dog'', ''photo''])"
  by (simp add: topic_table_def)

lemma ex2_lower: "lower ''passed, away'' = ''passed, away''"
  by (simp add: string_eval)

lemma ex2_words: "preprocess_text ''passed, away'' = [''passed'', ''away'']"
  by (simp add: preprocess_text_def ex2_lower) (simp add: string_eval)

lemma ex2_scan: "scan_topics ContentFilter_init ''passed, away'' [] = []"
  by (simp add: ContentFilter_init_def topic_table_def scan_topics_def scan_keywords_def set_add_def)

lemma ex2_bigrams: "scan_bigrams ContentFilter_init [''passed'', ''away''] [] = [''death'']"
  by (simp add: scan_bigrams_def kw_list sensitive_topics_init topics_of_def
      topic_table_def set_add_def)

lemma ex3_lower: "lower ''new script'' = ''new script''"
  by (simp add: string_eval)

lemma ex3_words: "preprocess_text ''new script'' = [''new'', ''script'']"
  by (simp add: preprocess_text_def ex3_lower) (simp add: string_eval)

lemma ex3_scan: "scan_topics ContentFilter_init ''new script'' [] = [''death'']"
  by (simp add: ContentFilter_init_def topic_table_def scan_topics_def scan_keywords_def set_add_def)

lemma ex3_tokens: "list_all (\<lambda>w. w \<notin> set (concat (map snd topic_table))) [''new'', ''script'']"
  by (simp add: topic_table_def)

lemma ex3_pairs: "list_all (\<lambda>b. b \<notin> set (concat (map snd topic_table))) (bigrams [''new'', ''script''])"
  by (simp add: topic_table_def)

lemma ex3_bigrams: "scan_bigrams ContentFilter_init [''new'', ''script''] [''death''] = [''death'']"
  using ex3_pairs by (simp add: scan_bigrams_def kw_list)

lemma ex4_lower: "lower ''So sorry for your loss, RIP'' = ''so sorry for your loss, rip''"
  by (simp add: string_eval)

text \<open>Characters beyond ASCII: U+00A0 separates tokens, U+00C9 is a letter.\<close>

lemma nbsp_lower: "lower nbsp_text = ''passed'' @ [CHR 0xA0] @ ''away''"
  by (simp add: nbsp_text_def string_eval)

lemma nbsp_words: "preprocess_text nbsp_text = [''passed'', ''away'']"
  by (simp add: preprocess_text_def nbsp_lower) (simp add: string_eval)

lemma nbsp_scan: "scan_topics ContentFilter_init (lower nbsp_text) [] = []"
  by (simp add: nbsp_lower)
     (simp add: ContentFilter_init_def topic_table_def scan_topics_def scan_keywords_def set_add_def)

lemma nbsp_classified:
  "contains_sensitive_content ContentFilter_init (Some nbsp_text) = (True, [''death''])"
proof -
  have "nbsp_text \<noteq> []" by (simp add: nbsp_text_def)
  then show ?thesis
    by (simp add: contains_sensitive_content_def Let_def nbsp_words nbsp_scan ex2_bigrams)
qed

lemma latin1_words: "preprocess_text [CHR 0xC9, CHR ''t'', CHR 0xE9, CHR ''!''] = [[CHR 0xE9, CHR ''t'', CHR 0xE9]]"
  by (simp add: preprocess_text_def string_eval)

subsection \<open>Claims about the classifier\<close>

text \<open>
  C3. If a keyword of a topic occurs in the lowercased text as a contiguous block, the
  classifier reports the text as sensitive and the topic is among the detected ones.
\<close>

theorem substring_is_sensitive:
  assumes "(topic, kws) \<in> set (sensitive_topics ContentFilter_init)"
    and "k \<in> set kws"
    and "sublist k (lower text0)"
  shows "fst (contains_sensitive_content ContentFilter_init (Some text0)) \<and>
         topic \<in> set (snd (contains_sensitive_content ContentFilter_init (Some text0)))"
proof -
  have tab: "(topic, kws) \<in> set topic_table"
    using assms(1) by (simp add: sensitive_topics_init)
  have "k \<noteq> []" using tab assms(2) by (rule keywords_nonempty)
  with assms(3) have ne: "text0 \<noteq> []" by (auto simp: lower_def)
  have "list_ex (\<lambda>k. py_in k (lower text0)) kws"
    using assms(2,3) by (auto simp: list_ex_iff py_in_sublist)
  with assms(1) have "topic \<in> set (scan_topics ContentFilter_init (lower text0) [])"
    by (auto simp: set_scan_topics)
  then have mem: "topic \<in> set (scan_bigrams ContentFilter_init (preprocess_text text0)
                     (scan_topics ContentFilter_init (lower text0) []))"
    by (simp add: set_scan_bigrams)
  then have "scan_bigrams ContentFilter_init (preprocess_text text0)
                     (scan_topics ContentFilter_init (lower text0) []) \<noteq> []"
    by auto
  with mem ne show ?thesis by (simp add: detected_unfold)
qed

theorem substring_is_sensitive_witness:
  "fst (contains_sensitive_content ContentFilter_init (Some ''So sorry for your loss, RIP'')) \<and>
   ''death'' \<in> set (snd (contains_sensitive_content ContentFilter_init (Some ''So sorry for your loss, RIP'')))"
proof -
  have a: "(''death'', snd (hd topic_table)) \<in> set (sensitive_topics ContentFilter_init)"
    by (simp add: sensitive_topics_init topic_table_def)
  have b: "''rip'' \<in> set (snd (hd topic_table))"
    by (simp add: topic_table_def)
  have c: "sublist ''rip'' (lower ''So sorry for your loss, RIP'')"
    by (simp add: ex4_lower py_in_sublist [symmetric])
  from a b c show ?thesis by (rule substring_is_sensitive)
qed

text \<open>
  C4, as stated, fails: in \<open>passed, away\<close> no keyword occurs as a contiguous block (the
  comma is in the way), but the second loop joins the tokens \<open>passed\<close> and \<open>away\<close> into
  the keyword \<open>passed away\<close>, and the text is reported as sensitive.
\<close>

theorem pair_match_counterexample:
  "\<not> (\<exists>k. k \<in> all_keywords ContentFilter_init \<and> sublist k (lower ''passed, away'')) \<and>
   contains_sensitive_content ContentFilter_init (Some ''passed, away'') = (True, [''death''])"
proof
  have "\<not> (\<exists>topic kws k. (topic, kws) \<in> set (sensitive_topics ContentFilter_init) \<and> k \<in> set kws
           \<and> sublist k ''passed, away'')"
    using ex2_scan unfolding scan_topics_empty_iff .
  then show "\<not> (\<exists>k. k \<in> all_keywords ContentFilter_init \<and> sublist k (lower ''passed, away''))"
    unfolding ex2_lower using in_all_keywords_iff by blast
  show "contains_sensitive_content ContentFilter_init (Some ''passed, away'') = (True, [''death''])"
    by (simp add: contains_sensitive_content_def Let_def ex2_lower ex2_words ex2_scan ex2_bigrams)
qed

text \<open>
  C4, amended. The absent text and the empty text are not sensitive, with no topic. A
  text in whose lowercased form no keyword occurs as a contiguous block, and none of
  whose pairs of neighbouring tokens, joined by one space, is a keyword, is not
  sensitive, with no topic.
\<close>

theorem no_match_not_sensitive:
  "contains_sensitive_content ContentFilter_init None = (False, []) \<and>
   contains_sensitive_content ContentFilter_init (Some []) = (False, []) \<and>
   ((\<forall>k \<in> all_keywords ContentFilter_init. \<not> sublist k (lower t)) \<and>
    (\<forall>b \<in> set (bigrams (preprocess_text t)). b \<notin> all_keywords ContentFilter_init)
      \<longrightarrow> contains_sensitive_content ContentFilter_init (Some t) = (False, []))"
proof (intro conjI impI)
  show "contains_sensitive_content ContentFilter_init None = (False, [])"
    by (simp add: contains_sensitive_content_def)
  show "contains_sensitive_content ContentFilter_init (Some []) = (False, [])"
    by (simp add: contains_sensitive_content_def)
  assume h: "(\<forall>k \<in> all_keywords ContentFilter_init. \<not> sublist k (lower t)) \<and>
    (\<forall>b \<in> set (bigrams (preprocess_text t)). b \<notin> all_keywords ContentFilter_init)"
  from h have "scan_topics ContentFilter_init (lower t) [] = []"
    by (intro scan_topics_empty) simp
  moreover from h have "scan_bigrams ContentFilter_init (preprocess_text t) [] = []"
    by (intro scan_bigrams_empty) blast
  ultimately show "contains_sensitive_content ContentFilter_init (Some t) = (False, [])"
    by (simp add: contains_sensitive_content_def Let_def)
qed

theorem no_match_not_sensitive_witness:
  "contains_sensitive_content ContentFilter_init (Some ''Check out this cute dog photo!'') = (False, [])"
proof -
  have "\<not> (\<exists>topic kws k. (topic, kws) \<in> set (sensitive_topics ContentFilter_init) \<and> k \<in> set kws
           \<and> sublist k ''check out this cute dog photo!'')"
    using ex1_scan unfolding scan_topics_empty_iff .
  then have a: "\<forall>k \<in> all_keywords ContentFilter_init. \<not> sublist k (lower ''Check out this cute dog photo!'')"
    unfolding ex1_lower using in_all_keywords_iff by blast
  have b: "\<forall>b \<in> set (bigrams (preprocess_text ''Check out this cute dog photo!'')).
             b \<notin> all_keywords ContentFilter_init"
    using ex1_bigrams by (simp only: ex1_words kw_list list_all_iff)
  from a b show ?thesis
    by (rule no_match_not_sensitive [THEN conjunct2, THEN conjunct2, rule_format, OF conjI])
qed

text \<open>
  C10. In the text \<open>new script\<close> no token is a keyword and the one pair of neighbouring
  tokens is not a keyword, but the keyword \<open>rip\<close> occurs inside the word \<open>script\<close>; the
  classifier reports the text as sensitive, with the topic \<open>death\<close>.
\<close>

theorem substring_inside_word:
  "list_all (\<lambda>w. w \<notin> all_keywords ContentFilter_init) (preprocess_text ''new script'') \<and>
   list_all (\<lambda>b. b \<notin> all_keywords ContentFilter_init) (bigrams (preprocess_text ''new script'')) \<and>
   sublist ''rip'' (lower ''new script'') \<and>
   contains_sensitive_content ContentFilter_init (Some ''new script'') = (True, [''death''])"
proof (intro conjI)
  show "list_all (\<lambda>w. w \<notin> all_keywords ContentFilter_init) (preprocess_text ''new script'')"
    using ex3_tokens by (simp only: ex3_words kw_list)
  show "list_all (\<lambda>b. b \<notin> all_keywords ContentFilter_init) (bigrams (preprocess_text ''new script''))"
    using ex3_pairs by (simp only: ex3_words kw_list)
  show "sublist ''rip'' (lower ''new script'')"
    by (simp add: ex3_lower py_in_sublist [symmetric])
  show "contains_sensitive_content ContentFilter_init (Some ''new script'') = (True, [''death''])"
    by (simp add: contains_sensitive_content_def Let_def ex3_lower ex3_words ex3_scan ex3_bigrams)
qed

section \<open>The bot\<close>

subsection \<open>Sample posts\<close>

lemma ex4_words: "preprocess_text ''So sorry for your loss, RIP'' =
    [''so'', ''sorry'', ''for'', ''your'', ''loss'', ''rip'']"
  by (simp add: preprocess_text_def ex4_lower) (simp add: string_eval)

lemma ex4_scan: "scan_topics ContentFilter_init ''so sorry for your loss, rip'' [] = [''death'', ''grief'']"
  by (simp add: ContentFilter_init_def topic_table_def scan_topics_def scan_keywords_def set_add_def)

lemma ex4_pairs: "list_all (\<lambda>b. b \<notin> set (concat (map snd topic_table)))
    (bigrams [''so'', ''sorry'', ''for'', ''your'', ''loss'', ''rip''])"
  by (simp add: topic_table_def)

lemma ex4_bigrams: "scan_bigrams ContentFilter_init [''so'', ''sorry'', ''for'', ''your'', ''loss'', ''rip'']
    [''death'', ''grief''] = [''death'', ''grief'']"
  using ex4_pairs by (simp add: scan_bigrams_def kw_list)

lemma ex4_classified:
  "contains_sensitive_content ContentFilter_init (Some ''So sorry for your loss, RIP'') =
     (True, [''death'', ''grief''])"
  by (simp add: contains_sensitive_content_def Let_def ex4_lower ex4_words ex4_scan ex4_bigrams)

lemma ex1_pairs_scan: "scan_bigrams ContentFilter_init
    [''check'', ''out'', ''this'', ''cute'', ''dog'', ''photo''] [] = []"
  using ex1_bigrams by (simp add: scan_bigrams_def kw_list)

lemma ex1_classified:
  "contains_sensitive_content ContentFilter_init (Some ''Check out this cute dog photo!'') = (False, [])"
  by (simp add: contains_sensitive_content_def Let_def ex1_lower ex1_words ex1_scan ex1_pairs_scan)

text \<open>
  C5. When \<open>post['post']['record']['text']\<close> cannot be read, \<open>should_reply_to_post\<close>
  answers \<open>True\<close> with the reason \<open>No text content\<close>. When it can, the answer is \<open>False\<close>
  exactly when the classifier reports the text as sensitive, and the reason then lists
  the detected topics, joined by a comma and a space.
\<close>

theorem should_reply_fail_open:
  "(post_text post = Inl e \<longrightarrow> should_reply_to_post self post = (True, ''No text content'')) \<and>
   (post_text post = Inr t \<longrightarrow>
      fst (should_reply_to_post self post) =
        (\<not> fst (contains_sensitive_content (content_filter self) (Some t))) \<and>
      (fst (contains_sensitive_content (content_filter self) (Some t)) \<longrightarrow>
         snd (should_reply_to_post self post) =
           ''Post contains sensitive topics: '' @
             join '', '' (snd (contains_sensitive_content (content_filter self) (Some t)))))"
  by (auto simp: should_reply_to_post_def split: prod.splits)

lemma post_text_absent:
  "post_text post = Inl e \<longleftrightarrow>
     e = KeyError \<and>
     (fi_post post = None \<or>
      (\<exists>pv. fi_post post = Some pv \<and>
         (pv_record pv = None \<or> (\<exists>r. pv_record pv = Some r \<and> rec_text r = None))))"
  by (auto simp: post_text_def split: option.splits)

theorem should_reply_fail_open_witness:
  "should_reply_to_post (sample_bot []) (sample_post None) = (True, ''No text content'') \<and>
   fst (should_reply_to_post (sample_bot []) (sample_post (Some ''So sorry for your loss, RIP''))) = False \<and>
   snd (should_reply_to_post (sample_bot []) (sample_post (Some ''So sorry for your loss, RIP''))) =
     ''Post contains sensitive topics: death, grief''"
proof -
  have a: "post_text (sample_post None) = Inl KeyError"
    by (simp add: post_text_def sample_post_def)
  have b: "post_text (sample_post (Some ''So sorry for your loss, RIP'')) = Inr ''So sorry for your loss, RIP''"
    by (simp add: post_text_def sample_post_def)
  have c: "contains_sensitive_content (content_filter (sample_bot [])) (Some ''So sorry for your loss, RIP'') =
     (True, [''death'', ''grief''])"
    by (simp add: sample_bot_def ex4_classified)
  from should_reply_fail_open [of "sample_post None" KeyError "sample_bot []"] a
  have 1: "should_reply_to_post (sample_bot []) (sample_post None) = (True, ''No text content'')"
    by blast
  from should_reply_fail_open [of "sample_post (Some ''So sorry for your loss, RIP'')" _ "sample_bot []"
      "''So sorry for your loss, RIP''"] b
  have 2: "fst (should_reply_to_post (sample_bot []) (sample_post (Some ''So sorry for your loss, RIP''))) =
        (\<not> fst (contains_sensitive_content (content_filter (sample_bot [])) (Some ''So sorry for your loss, RIP'')))"
    and 3: "fst (contains_sensitive_content (content_filter (sample_bot [])) (Some ''So sorry for your loss, RIP'')) \<longrightarrow>
         snd (should_reply_to_post (sample_bot []) (sample_post (Some ''So sorry for your loss, RIP''))) =
           ''Post contains sensitive topics: '' @
             join '', '' (snd (contains_sensitive_content (content_filter (sample_bot [])) (Some ''So sorry for your loss, RIP'')))"
    by blast+
  from 1 2 3 show ?thesis by (simp add: c)
qed

lemma reply_to_post_replied:
  assumes "fi_post post = Some pv" and "pv_uri pv = Some u" and "u \<in> set (replied_posts self)"
  shows "reply_to_post w self post reply_text0 image_path = (Inr False, self)"
  using assms by (simp add: reply_to_post_def)

lemma reply_to_post_True:
  assumes "reply_to_post w self post reply_text0 image_path = (Inr True, self')"
  shows "\<exists>pv u. fi_post post = Some pv \<and> pv_uri pv = Some u \<and> u \<in> set (replied_posts self')
           \<and> content_filter self' = content_filter self"
  using assms
  by (auto simp: reply_to_post_def Let_def save_replied_posts_def set_set_add
      split: option.splits if_splits image_read.splits prod.splits)

text \<open>
  C1. For a post whose URI is in \<open>replied_posts\<close>, \<open>reply_to_post\<close> returns \<open>False\<close> and
  leaves the bot as it was: no \<open>send_image\<close> call, the set and the file untouched. So
  after a call that returned \<open>True\<close>, any further call for a post with the same URI
  returns \<open>False\<close> and issues no call.
\<close>

theorem already_replied_no_dispatch:
  "(fi_post post = Some pv \<and> pv_uri pv = Some u \<and> u \<in> set (replied_posts self) \<longrightarrow>
      reply_to_post w self post reply_text0 image_path = (Inr False, self)) \<and>
   (reply_to_post w self post reply_text0 image_path = (Inr True, self') \<and>
    fi_post post = Some pv \<and> fi_post post2 = Some pv2 \<and> pv_uri pv2 = pv_uri pv \<longrightarrow>
      reply_to_post w2 self' post2 reply_text2 image_path2 = (Inr False, self'))"
proof (intro conjI impI)
  assume "fi_post post = Some pv \<and> pv_uri pv = Some u \<and> u \<in> set (replied_posts self)"
  then show "reply_to_post w self post reply_text0 image_path = (Inr False, self)"
    by (simp add: reply_to_post_replied)
next
  assume h: "reply_to_post w self post reply_text0 image_path = (Inr True, self') \<and>
    fi_post post = Some pv \<and> fi_post post2 = Some pv2 \<and> pv_uri pv2 = pv_uri pv"
  then obtain u where "pv_uri pv = Some u" "u \<in> set (replied_posts self')"
    using reply_to_post_True [of w self post reply_text0 image_path self'] by auto
  with h show "reply_to_post w2 self' post2 reply_text2 image_path2 = (Inr False, self')"
    by (intro reply_to_post_replied [of post2 pv2 u]) simp_all
qed

lemma sample_should_reply:
  "should_reply_to_post (sample_bot uris) (sample_post (Some ''Check out this cute dog photo!'')) =
     (True, ''Content appropriate for reply'')"
  by (simp add: should_reply_to_post_def post_text_def sample_post_def sample_bot_def ex1_classified)

lemma sample_refs:
  "reply_refs (sample_post t) = Some ((''at://x/1'', ''c1''), (''at://x/1'', ''c1''))"
  by (simp add: reply_refs_def extract_reply_info_def strong_ref_def sample_post_def)

lemma sample_fi_post:
  "fi_post (sample_post t) =
     Some \<lparr> pv_uri = Some ''at://x/1'', pv_cid = Some ''c1'', pv_record = Some \<lparr> rec_text = t \<rparr> \<rparr>"
  by (simp add: sample_post_def)

lemma sample_reply_up:
  "reply_to_post (sample_world True) (sample_bot [])
      (sample_post (Some ''Check out this cute dog photo!'')) ''woof'' ''dog.jpg'' =
     (Inr True, (sample_bot [''at://x/1''])\<lparr>sent := [sample_call]\<rparr>)"
  by (simp add: reply_to_post_def sample_fi_post sample_should_reply sample_refs)
     (simp add: sample_refs sample_bot_def sample_world_def sample_call_def set_add_def
        save_replied_posts_def)

lemma sample_reply_down:
  "reply_to_post (sample_world False) (sample_bot [])
      (sample_post (Some ''Check out this cute dog photo!'')) ''woof'' ''dog.jpg'' =
     (Inr False, (sample_bot [])\<lparr>sent := [sample_call]\<rparr>)"
  by (simp add: reply_to_post_def sample_fi_post sample_should_reply sample_refs)
     (simp add: sample_refs sample_bot_def sample_world_def sample_call_def)

theorem already_replied_no_dispatch_witness:
  "reply_to_post (sample_world True) (sample_bot [''at://x/1''])
      (sample_post (Some ''Check out this cute dog photo!'')) ''woof'' ''dog.jpg'' =
     (Inr False, sample_bot [''at://x/1'']) \<and>
   reply_to_post (sample_world True) ((sample_bot [''at://x/1''])\<lparr>sent := [sample_call]\<rparr>)
      (sample_post None) ''again'' ''cat.jpg'' =
     (Inr False, (sample_bot [''at://x/1''])\<lparr>sent := [sample_call]\<rparr>)"
proof
  have "fi_post (sample_post (Some ''Check out this cute dog photo!'')) =
          Some \<lparr> pv_uri = Some ''at://x/1'', pv_cid = Some ''c1'',
                 pv_record = Some \<lparr> rec_text = Some ''Check out this cute dog photo!'' \<rparr> \<rparr> \<and>
        pv_uri \<lparr> pv_uri = Some ''at://x/1'', pv_cid = Some ''c1'',
                 pv_record = Some \<lparr> rec_text = Some ''Check out this cute dog photo!'' \<rparr> \<rparr> = Some ''at://x/1'' \<and>
        ''at://x/1'' \<in> set (replied_posts (sample_bot [''at://x/1'']))"
    by (simp add: sample_post_def sample_bot_def)
  then show "reply_to_post (sample_world True) (sample_bot [''at://x/1''])
      (sample_post (Some ''Check out this cute dog photo!'')) ''woof'' ''dog.jpg'' =
     (Inr False, sample_bot [''at://x/1''])"
    by (rule already_replied_no_dispatch [THEN conjunct1, rule_format])
  have "reply_to_post (sample_world True) (sample_bot [])
      (sample_post (Some ''Check out this cute dog photo!'')) ''woof'' ''dog.jpg'' =
     (Inr True, (sample_bot [''at://x/1''])\<lparr>sent := [sample_call]\<rparr>) \<and>
     fi_post (sample_post (Some ''Check out this cute dog photo!'')) =
          Some \<lparr> pv_uri = Some ''at://x/1'', pv_cid = Some ''c1'',
                 pv_record = Some \<lparr> rec_text = Some ''Check out this cute dog photo!'' \<rparr> \<rparr> \<and>
     fi_post (sample_post None) =
          Some \<lparr> pv_uri = Some ''at://x/1'', pv_cid = Some ''c1'',
                 pv_record = Some \<lparr> rec_text = None \<rparr> \<rparr> \<and>
     pv_uri \<lparr> pv_uri = Some ''at://x/1'', pv_cid = Some ''c1'',
                 pv_record = Some \<lparr> rec_text = None \<rparr> \<rparr> =
     pv_uri \<lparr> pv_uri = Some ''at://x/1'', pv_cid = Some ''c1'',
                 pv_record = Some \<lparr> rec_text = Some ''Check out this cute dog photo!'' \<rparr> \<rparr>"
    by (simp add: sample_reply_up) (simp add: sample_post_def)
  then show "reply_to_post (sample_world True) ((sample_bot [''at://x/1''])\<lparr>sent := [sample_call]\<rparr>)
      (sample_post None) ''again'' ''cat.jpg'' =
     (Inr False, (sample_bot [''at://x/1''])\<lparr>sent := [sample_call]\<rparr>)"
    by (rule already_replied_no_dispatch [THEN conjunct2, rule_format])
qed

text \<open>The outcomes of \<open>reply_to_post\<close>, one by one.\<close>

lemma reply_to_post_cases:
  assumes "reply_to_post w self post reply_text0 image_path = (r, self')"
  shows "(self' = self \<and> r \<noteq> Inr True) \<or>
         (\<exists>call u pv. fi_post post = Some pv \<and> pv_uri pv = Some u \<and> u \<notin> set (replied_posts self) \<and>
            \<not> send_image w call \<and> r = Inr False \<and> self' = self\<lparr>sent := sent self @ [call]\<rparr>) \<or>
         (\<exists>call u pv. fi_post post = Some pv \<and> pv_uri pv = Some u \<and> u \<notin> set (replied_posts self) \<and>
            send_image w call \<and> write_ok w \<and> r = Inr True \<and>
            self' = self\<lparr>sent := sent self @ [call],
                         replied_posts := replied_posts self @ [u],
                         replied_file := JsonArray (replied_posts self @ [u])\<rparr>) \<or>
         (\<exists>call u pv. fi_post post = Some pv \<and> pv_uri pv = Some u \<and> u \<notin> set (replied_posts self) \<and>
            send_image w call \<and> \<not> write_ok w \<and> r = Inr False \<and>
            self' = self\<lparr>sent := sent self @ [call],
                         replied_posts := replied_posts self @ [u]\<rparr>)"
  using assms
  by (auto simp: reply_to_post_def Let_def save_replied_posts_def set_add_def
      split: option.splits if_splits image_read.splits prod.splits)

text \<open>
  C2. \<open>reply_to_post\<close> changes the set or the file only after a \<open>send_image\<close> call that
  succeeded. When the call fails, it returns \<open>False\<close>, the set and the file are as
  before, and the URI of the post is still not in the set. When the call succeeds (and
  the file can be written), it returns \<open>True\<close>, the URI has joined the set and the file
  holds the new set.
\<close>

theorem mark_replied_after_dispatch:
  assumes "reply_to_post w self post reply_text0 image_path = (r, self')"
  shows "(replied_posts self' \<noteq> replied_posts self \<or> replied_file self' \<noteq> replied_file self \<longrightarrow>
            (\<exists>call. sent self' = sent self @ [call] \<and> send_image w call)) \<and>
         (sent self' = sent self @ [call] \<and> \<not> send_image w call \<longrightarrow>
            r = Inr False \<and> replied_posts self' = replied_posts self \<and>
            replied_file self' = replied_file self \<and>
            (\<exists>pv u. fi_post post = Some pv \<and> pv_uri pv = Some u \<and> u \<notin> set (replied_posts self'))) \<and>
         (sent self' = sent self @ [call] \<and> send_image w call \<and> write_ok w \<longrightarrow>
            r = Inr True \<and>
            (\<exists>pv u. fi_post post = Some pv \<and> pv_uri pv = Some u \<and>
               set (replied_posts self') = insert u (set (replied_posts self))) \<and>
            replied_file self' = JsonArray (replied_posts self'))"
  using reply_to_post_cases [OF assms]
  by (elim disjE exE conjE) (simp_all, auto)

theorem mark_replied_after_dispatch_witness:
  "fst (reply_to_post (sample_world False) (sample_bot [])
          (sample_post (Some ''Check out this cute dog photo!'')) ''woof'' ''dog.jpg'') = Inr False \<and>
   replied_posts (snd (reply_to_post (sample_world False) (sample_bot [])
          (sample_post (Some ''Check out this cute dog photo!'')) ''woof'' ''dog.jpg'')) =
     replied_posts (sample_bot []) \<and>
   replied_file (snd (reply_to_post (sample_world False) (sample_bot [])
          (sample_post (Some ''Check out this cute dog photo!'')) ''woof'' ''dog.jpg'')) =
     replied_file (sample_bot []) \<and>
   fst (reply_to_post (sample_world True) (sample_bot [])
          (sample_post (Some ''Check out this cute dog photo!'')) ''woof'' ''dog.jpg'') = Inr True \<and>
   replied_file (snd (reply_to_post (sample_world True) (sample_bot [])
          (sample_post (Some ''Check out this cute dog photo!'')) ''woof'' ''dog.jpg'')) =
     JsonArray [''at://x/1'']"
proof -
  let ?post = "sample_post (Some ''Check out this cute dog photo!'')"
  let ?down = "reply_to_post (sample_world False) (sample_bot []) ?post ''woof'' ''dog.jpg''"
  let ?up = "reply_to_post (sample_world True) (sample_bot []) ?post ''woof'' ''dog.jpg''"
  have d: "?down = (fst ?down, snd ?down)" and u: "?up = (fst ?up, snd ?up)"
    by simp_all
  have d1: "sent (snd ?down) = sent (sample_bot []) @ [sample_call] \<and>
            \<not> send_image (sample_world False) sample_call"
    by (simp add: sample_reply_down) (simp add: sample_bot_def sample_world_def)
  have u1: "sent (snd ?up) = sent (sample_bot []) @ [sample_call] \<and>
            send_image (sample_world True) sample_call \<and> write_ok (sample_world True)"
    by (simp add: sample_reply_up) (simp add: sample_bot_def sample_world_def)
  from mark_replied_after_dispatch [OF d, of sample_call] d1
  have "fst ?down = Inr False \<and> replied_posts (snd ?down) = replied_posts (sample_bot []) \<and>
        replied_file (snd ?down) = replied_file (sample_bot [])"
    by blast
  moreover from mark_replied_after_dispatch [OF u, of sample_call] u1
  have "fst ?up = Inr True \<and> replied_file (snd ?up) = JsonArray (replied_posts (snd ?up))"
    by blast
  moreover have "replied_posts (snd ?up) = [''at://x/1'']"
    by (simp add: sample_reply_up) (simp add: sample_bot_def)
  ultimately show ?thesis by simp
qed

lemma scan_rows_first:
  "\<forall>r \<in> set before. row_id r \<noteq> x \<Longrightarrow> row_id row = x \<Longrightarrow>
     scan_rows x (before @ row # after) = (Some (local_image_path row), Some (reply_text row))"
  by (induction before) auto

lemma scan_rows_none: "\<forall>r \<in> set rows. row_id r \<noteq> x \<Longrightarrow> scan_rows x rows = (None, None)"
  by (induction rows) auto

text \<open>
  C7. \<open>get_random_content\<close> draws \<open>random.randint(1, 514)\<close>; it returns the image path
  and caption of the first row of the CSV whose ID is the number drawn, and
  \<open>(None, None)\<close> when no row has that ID. (Without the file it raises.)
\<close>

theorem random_content_scan:
  "get_random_content randint None = Inl FileNotFoundError \<and>
   ((\<forall>r \<in> set before. row_id r \<noteq> randint 1 514) \<and> row_id row = randint 1 514 \<longrightarrow>
      get_random_content randint (Some (before @ row # after)) =
        Inr (Some (local_image_path row), Some (reply_text row))) \<and>
   ((\<forall>r \<in> set rows. row_id r \<noteq> randint 1 514) \<longrightarrow>
      get_random_content randint (Some rows) = Inr (None, None))"
  by (simp add: get_random_content_def scan_rows_first scan_rows_none)

theorem random_content_scan_witness:
  "get_random_content (\<lambda>lo hi. 3) (Some ([sample_row 1, sample_row 2] @ sample_row 3 # [sample_row 3, sample_row 4]))
     = Inr (Some ''p'', Some ''c'') \<and>
   get_random_content (\<lambda>lo hi. 999) (Some sample_rows) = Inr (None, None)"
proof
  have a: "\<forall>r \<in> set [sample_row 1, sample_row 2]. row_id r \<noteq> (\<lambda>lo hi. 3) (1::int) (514::int)"
    by (simp add: sample_row_def)
  have b: "row_id (sample_row 3) = (\<lambda>lo hi. 3) (1::int) (514::int)"
    by (simp add: sample_row_def)
  from a b random_content_scan [of "\<lambda>lo hi. 3" "[sample_row 1, sample_row 2]" "sample_row 3" "[sample_row 3, sample_row 4]"]
  show "get_random_content (\<lambda>lo hi. 3) (Some ([sample_row 1, sample_row 2] @ sample_row 3 # [sample_row 3, sample_row 4]))
     = Inr (Some ''p'', Some ''c'')"
    by (simp add: sample_row_def)
  have c: "\<forall>r \<in> set sample_rows. row_id r \<noteq> (\<lambda>lo hi. 999) (1::int) (514::int)"
    by (simp add: sample_rows_def sample_row_def)
  with random_content_scan [of "\<lambda>lo hi. 999" _ _ _ sample_rows]
  show "get_random_content (\<lambda>lo hi. 999) (Some sample_rows) = Inr (None, None)"
    by blast
qed

text \<open>
  C8. Loading what \<open>save_replied_posts\<close> wrote gives the saved set of URIs again, and so
  does loading any array with the same elements, whatever their order; loading a missing
  file or one that is not JSON gives the empty set.
\<close>

theorem replied_posts_round_trip:
  "set (load_replied_posts (replied_file (save_replied_posts self))) = set (replied_posts self) \<and>
   (set uris = set (replied_posts self) \<longrightarrow>
      set (load_replied_posts (JsonArray uris)) = set (replied_posts self)) \<and>
   load_replied_posts Missing = [] \<and>
   load_replied_posts Malformed = []"
  by (simp add: load_replied_posts_def save_replied_posts_def)

theorem replied_posts_round_trip_witness:
  "set (load_replied_posts (JsonArray [''at://x/2'', ''at://x/1'', ''at://x/2''])) =
     set (replied_posts (sample_bot [''at://x/1'', ''at://x/2'']))"
proof -
  have "set [''at://x/2'', ''at://x/1'', ''at://x/2''] = set (replied_posts (sample_bot [''at://x/1'', ''at://x/2'']))"
    by (auto simp: sample_bot_def)
  with replied_posts_round_trip [of "sample_bot [''at://x/1'', ''at://x/2'']" "[''at://x/2'', ''at://x/1'', ''at://x/2'']"]
  show ?thesis by blast
qed

section \<open>The dataset builder\<close>

lemma row_id_process_entry: "row_id (process_entry w images_dir e) = fst e"
  by (cases e) (simp add: Let_def split: option.splits)

lemma sorted_extract: "sorted (map fst (extract_data_from_code matches))"
  by (simp add: extract_data_from_code_def)

lemma mset_extract:
  "mset (extract_data_from_code matches) =
     mset (map (\<lambda>(n, url, caption). (n, strip url, caption)) matches)"
  by (simp add: extract_data_from_code_def)

lemma pending_filter:
  "pending_entries matches output_csv start_from =
     filter (\<lambda>e. fst e \<ge> start_from \<and>
                 fst e \<notin> (case output_csv of None \<Rightarrow> {} | Some reader \<Rightarrow> row_id ` set reader))
       (extract_data_from_code matches)"
  by (simp add: pending_entries_def case_prod_unfold split: option.splits)

text \<open>
  C6. The entries the main loop runs over are exactly the parsed entries whose id is at
  least \<open>start_from\<close> and is not the ID of a row of the existing output CSV, each as
  often as it was parsed; they come in ascending order of id, and the rows the run
  appends have their ids, in that order. With rows for the IDs 1 to 10 in the CSV and
  \<open>start_from = 5\<close>, every entry processed has an id of 11 or more.
\<close>

theorem resume_filter:
  "mset (pending_entries matches output_csv start_from) =
     filter_mset (\<lambda>e. fst e \<ge> start_from \<and>
                       fst e \<notin> (case output_csv of None \<Rightarrow> {} | Some reader \<Rightarrow> row_id ` set reader))
       (mset (map (\<lambda>(n, url, caption). (n, strip url, caption)) matches)) \<and>
   sorted (map fst (pending_entries matches output_csv start_from)) \<and>
   map row_id (drop (case output_csv of None \<Rightarrow> 0 | Some reader \<Rightarrow> length reader)
                 (process_twitter_data w matches output_csv images_dir start_from)) =
     map fst (pending_entries matches output_csv start_from) \<and>
   (output_csv = Some reader \<and> {1..10} \<subseteq> row_id ` set reader \<longrightarrow>
      (\<forall>e \<in> set (pending_entries matches output_csv 5). fst e \<ge> 11))"
proof (intro conjI impI)
  show "mset (pending_entries matches output_csv start_from) =
     filter_mset (\<lambda>e. fst e \<ge> start_from \<and>
                       fst e \<notin> (case output_csv of None \<Rightarrow> {} | Some reader \<Rightarrow> row_id ` set reader))
       (mset (map (\<lambda>(n, url, caption). (n, strip url, caption)) matches))"
    by (simp only: pending_filter mset_filter mset_extract)
  show "sorted (map fst (pending_entries matches output_csv start_from))"
    unfolding pending_filter by (intro sorted_filter sorted_extract)
  show "map row_id (drop (case output_csv of None \<Rightarrow> 0 | Some reader \<Rightarrow> length reader)
                 (process_twitter_data w matches output_csv images_dir start_from)) =
     map fst (pending_entries matches output_csv start_from)"
    by (simp add: process_twitter_data_def Let_def row_id_process_entry comp_def split: option.splits)
next
  assume h: "output_csv = Some reader \<and> {1..10} \<subseteq> row_id ` set reader"
  show "\<forall>e \<in> set (pending_entries matches output_csv 5). fst e \<ge> 11"
  proof
    fix e assume "e \<in> set (pending_entries matches output_csv 5)"
    with h have "fst e \<ge> 5" and "fst e \<notin> row_id ` set reader"
      by (simp_all add: pending_filter)
    with h have "fst e \<notin> {1..10}" by blast
    with \<open>fst e \<ge> 5\<close> show "fst e \<ge> 11" by simp
  qed
qed

lemma sample_ids: "{1..10} \<subseteq> row_id ` set sample_rows"
proof
  fix i :: int assume "i \<in> {1..10}"
  then have "i = 1 \<or> i = 2 \<or> i = 3 \<or> i = 4 \<or> i = 5 \<or> i = 6 \<or> i = 7 \<or> i = 8 \<or> i = 9 \<or> i = 10"
    by simp arith
  then show "i \<in> row_id ` set sample_rows"
    by (auto simp: sample_rows_def sample_row_def)
qed

lemma sample_extract:
  "extract_data_from_code sample_matches = map (\<lambda>i. (i, ''u'', ''c'')) [1, 3, 5, 7, 10, 11, 12]"
  by (simp add: extract_data_from_code_def sample_matches_def string_eval)

lemma sample_pending:
  "pending_entries sample_matches (Some sample_rows) 5 = [(11, ''u'', ''c''), (12, ''u'', ''c'')]"
  by (simp add: pending_filter sample_extract) (simp add: sample_rows_def sample_row_def)

theorem resume_filter_witness:
  "pending_entries sample_matches (Some sample_rows) 5 = [(11, ''u'', ''c''), (12, ''u'', ''c'')] \<and>
   list_all (\<lambda>e. fst e \<ge> 11) (pending_entries sample_matches (Some sample_rows) 5)"
proof
  show "pending_entries sample_matches (Some sample_rows) 5 = [(11, ''u'', ''c''), (12, ''u'', ''c'')]"
    by (rule sample_pending)
  have "Some sample_rows = Some sample_rows \<and> {1..10} \<subseteq> row_id ` set sample_rows"
    using sample_ids by simp
  with resume_filter [where matches = sample_matches and output_csv = "Some sample_rows"
      and reader = sample_rows, THEN conjunct2, THEN conjunct2, THEN conjunct2]
  have "\<forall>e \<in> set (pending_entries sample_matches (Some sample_rows) 5). fst e \<ge> 11"
    by (rule mp)
  then show "list_all (\<lambda>e. fst e \<ge> 11) (pending_entries sample_matches (Some sample_rows) 5)"
    by (simp add: list_all_iff)
qed

lemma dimension_simps:
  "dimension None = Some 0" "dimension (Some []) = Some 0"
  "a \<noteq> [] \<Longrightarrow> dimension (Some a) = py_int a"
  by (simp_all add: dimension_def)

lemma valid_image_iff:
  "valid_image e = Some s \<longleftrightarrow>
     src e = Some s \<and> s \<noteq> [] \<and>
     \<not> sublist ''profile'' (lower s) \<and> \<not> sublist ''avatar'' (lower s) \<and>
     (dimension (width e) = None \<or> dimension (height e) = None \<or>
      (\<exists>w h. dimension (width e) = Some w \<and> dimension (height e) = Some h \<and> w * h > 10000))"
  by (auto simp: valid_image_def py_in_sublist split: option.splits)

lemma valid_images_Cons:
  "valid_images (e # es) =
     (case valid_image e of None \<Rightarrow> valid_images es | Some s \<Rightarrow> s # valid_images es)"
  by (simp add: valid_images_def split: option.splits)

lemma valid_images_first:
  "\<forall>b \<in> set before. valid_image b = None \<Longrightarrow> valid_image e = Some s \<Longrightarrow>
     valid_images (before @ e # after) = s # valid_images after"
  by (induction before) (simp_all add: valid_images_Cons)

lemma scan_selectors_first:
  assumes "\<forall>sel \<in> set skipped. page sel = None \<or> (\<exists>es. page sel = Some es \<and> valid_images es = [])"
    and "page selector = Some elements"
    and "valid_images elements = image_url # others"
  shows "scan_selectors page (skipped @ selector # rest) = Some (large_format image_url)"
  using assms by (induction skipped) auto

lemma scan_selectors_none:
  "\<forall>sel \<in> set sels. page sel = None \<or> (\<exists>es. page sel = Some es \<and> valid_images es = []) \<Longrightarrow>
     scan_selectors page sels = None"
  by (induction sels) auto

lemma py_split_first:
  assumes "sep \<noteq> []" and "\<not> sublist sep (a @ butlast sep)"
  shows "py_split sep cur (a @ sep @ b) = (cur @ a) # py_split sep [] b"
  using assms
proof (induction a arbitrary: cur)
  case Nil
  then obtain c cs where sep: "sep = c # cs" by (cases sep) auto
  have "py_split sep cur (c # cs @ b) = cur # py_split sep [] (drop (length sep) (c # cs @ b))"
    using sep by simp
  then show ?case using sep by simp
next
  case (Cons x a)
  have "\<not> prefix sep (x # a @ sep @ b)"
  proof
    assume p: "prefix sep (x # a @ sep @ b)"
    have "x # a @ sep @ b = ((x # a) @ butlast sep) @ (last sep # b)"
      using Cons.prems(1) by simp
    moreover have "length sep \<le> length ((x # a) @ butlast sep)" by simp
    ultimately have "prefix sep ((x # a) @ butlast sep)"
      using p by (metis prefix_length_prefix prefixI)
    then show False using Cons.prems(2) by (meson prefix_imp_sublist)
  qed
  moreover have "\<not> sublist sep (a @ butlast sep)"
    using Cons.prems(2) by (simp add: sublist_Cons_right)
  ultimately show ?case using Cons.IH [of "cur @ [x]"] Cons.prems(1) by simp
qed

lemma large_format_first:
  assumes "\<not> sublist ''?format='' (a @ ''?format'')"
  shows "large_format (a @ ''?format='' @ b) = a @ ''?format=jpg&name=large''"
proof -
  have "py_split ''?format='' [] (a @ ''?format='' @ b) = ([] @ a) # py_split ''?format='' [] b"
    by (rule py_split_first) (use assms in simp_all)
  moreover have "sublist ''?format='' (a @ ''?format='' @ b)"
    by (rule sublist_appendI)
  ultimately show ?thesis
    by (simp only: large_format_def py_in_sublist if_True list.sel append_Nil)
qed

lemma large_format_plain: "\<not> sublist ''?format='' url \<Longrightarrow> large_format url = url"
  by (simp add: large_format_def py_in_sublist)

lemma retry_from_first:
  assumes "\<forall>k < j. driver (start + k) = LoadError \<or>
             (\<exists>p. driver (start + k) = Loaded p \<and> scan_selectors p selectors = None)"
    and "j < n" and "driver (start + j) = Loaded page"
    and "scan_selectors page selectors = Some url"
  shows "retry_from driver start n = Some url"
  using assms
proof (induction j arbitrary: start n)
  case 0
  then obtain m where "n = Suc m" by (cases n) auto
  with 0 show ?case by simp
next
  case (Suc j)
  then obtain m where n: "n = Suc m" by (cases n) auto
  from Suc.prems(1) have first: "driver start = LoadError \<or>
      (\<exists>p. driver start = Loaded p \<and> scan_selectors p selectors = None)"
    by (metis add.right_neutral zero_less_Suc)
  have "\<forall>k < j. driver (Suc start + k) = LoadError \<or>
             (\<exists>p. driver (Suc start + k) = Loaded p \<and> scan_selectors p selectors = None)"
    using Suc.prems(1) by (metis Suc_less_eq add_Suc_shift)
  moreover have "j < m" using Suc.prems(2) n by simp
  moreover have "driver (Suc start + j) = Loaded page" using Suc.prems(3) by simp
  ultimately have "retry_from driver (Suc start) m = Some url"
    using Suc.prems(4) by (rule Suc.IH)
  with first n show ?case by auto
qed

text \<open>
  C9, amended. An element is acceptable when its source is present, not empty and
  contains neither \<open>profile\<close> nor \<open>avatar\<close> in lower case, and either a dimension
  attribute is no integer literal or width times height exceeds 10000, where a missing
  or empty attribute counts as 0. The scraper takes the first selector, in priority
  order, that yields an acceptable element, and the first acceptable element of that
  selector; it does so on the first attempt whose page loads and yields one. A source
  containing \<open>?format=\<close> is cut before the first occurrence and continued with
  \<open>?format=jpg&name=large\<close>; any other source is returned as it is.
\<close>

theorem image_selection:
  "(valid_image e = Some s \<longleftrightarrow>
      src e = Some s \<and> s \<noteq> [] \<and>
      \<not> sublist ''profile'' (lower s) \<and> \<not> sublist ''avatar'' (lower s) \<and>
      (dimension (width e) = None \<or> dimension (height e) = None \<or>
       (\<exists>w h. dimension (width e) = Some w \<and> dimension (height e) = Some h \<and> w * h > 10000))) \<and>
   dimension None = Some 0 \<and> dimension (Some []) = Some 0 \<and>
   (d \<noteq> [] \<longrightarrow> dimension (Some d) = py_int d) \<and>
   ((\<forall>sel \<in> set skipped. page sel = None \<or> (\<exists>es. page sel = Some es \<and> valid_images es = [])) \<and>
    page selector = Some (before @ e # after) \<and>
    (\<forall>b \<in> set before. valid_image b = None) \<and> valid_image e = Some s \<longrightarrow>
      scan_selectors page (skipped @ selector # rest) = Some (large_format s)) \<and>
   ((\<forall>k < j. driver k = LoadError \<or>
               (\<exists>p. driver k = Loaded p \<and> scan_selectors p selectors = None)) \<and>
    j < max_retries \<and> driver j = Loaded page \<and> scan_selectors page selectors = Some url \<longrightarrow>
      get_image_url_from_tweet driver max_retries = Some url) \<and>
   (\<not> sublist ''?format='' (a @ ''?format'') \<longrightarrow>
      large_format (a @ ''?format='' @ c) = a @ ''?format=jpg&name=large'') \<and>
   (\<not> sublist ''?format='' url \<longrightarrow> large_format url = url)"
proof (intro conjI impI)
  assume h: "(\<forall>sel \<in> set skipped. page sel = None \<or> (\<exists>es. page sel = Some es \<and> valid_images es = [])) \<and>
    page selector = Some (before @ e # after) \<and>
    (\<forall>b \<in> set before. valid_image b = None) \<and> valid_image e = Some s"
  then have "valid_images (before @ e # after) = s # valid_images after"
    by (intro valid_images_first) simp_all
  with h show "scan_selectors page (skipped @ selector # rest) = Some (large_format s)"
    by (intro scan_selectors_first [where elements = "before @ e # after"]) simp_all
next
  assume h: "(\<forall>k < j. driver k = LoadError \<or>
               (\<exists>p. driver k = Loaded p \<and> scan_selectors p selectors = None)) \<and>
    j < max_retries \<and> driver j = Loaded page \<and> scan_selectors page selectors = Some url"
  then show "get_image_url_from_tweet driver max_retries = Some url"
    unfolding get_image_url_from_tweet_def
    by (intro retry_from_first [where j = j and page = page]) simp_all
qed (erule dimension_simps large_format_first large_format_plain | rule valid_image_iff dimension_simps)+

lemmas int_eval = py_int_def digits_ok_def digit_value_def digit_chars_def int_strip_def
  int_space_chars_def int_max_str_digits_def

lemma bare_src_lower:
  "lower ''https://pbs.twimg.com/media/a.jpg'' = ''https://pbs.twimg.com/media/a.jpg''"
  by (simp add: lower_def lower_char_def upper_chars_def lower_chars_def)

lemma bare_invalid: "valid_image bare_image = None"
  by (simp add: valid_image_def bare_image_def dimension_def bare_src_lower)

lemma sized_src_lower:
  "lower ''https://pbs.twimg.com/media/b?format=png&name=small'' =
     ''https://pbs.twimg.com/media/b?format=png&name=small''"
  by (simp add: lower_def lower_char_def upper_chars_def lower_chars_def)

lemma sized_dims: "py_int ''680'' = Some 680" "py_int ''380'' = Some 380"
  by (simp_all add: int_eval)

lemma odd_dim: "py_int ''auto'' = None"
  by (simp add: int_eval)

lemma py_int_separator: "py_int (CHR 0x1F # ''200'') = None"
  by (simp add: int_eval)

lemma py_int_nbsp: "py_int (CHR 0xA0 # ''200'' @ [CHR 0x85]) = Some 200"
  by (simp add: int_eval)

lemma py_int_samples:
  "py_int '' -7 '' = Some (- 7)" "py_int ''1_000'' = Some 1000" "py_int ''1__0'' = None"
  "py_int ''12.5'' = None" "py_int ''+3'' = Some 3" "py_int '''' = None"
  by (simp_all add: int_eval)

lemma py_int_limit: "py_int (replicate 4301 (CHR ''1'')) = None"
proof -
  have "int_strip (replicate 4301 (CHR ''1'')) = replicate 4301 (CHR ''1'')"
    by (simp add: int_strip_def int_space_chars_def)
  moreover have "hd (replicate 4301 (CHR ''1'')) = CHR ''1''" by simp
  moreover have "filter (\<lambda>c. c \<noteq> CHR ''_'') (replicate 4301 (CHR ''1'')) = replicate 4301 (CHR ''1'')"
    by simp
  ultimately show ?thesis
    by (simp add: py_int_def Let_def int_max_str_digits_def)
qed

lemma sized_valid:
  "valid_image sized_image = Some ''https://pbs.twimg.com/media/b?format=png&name=small''"
  by (simp add: valid_image_def sized_image_def dimension_def sized_src_lower sized_dims)

lemma bare_images: "valid_images [bare_image] = []"
  by (simp add: valid_images_Cons bare_invalid) (simp add: valid_images_def)

lemma bare_scan: "scan_selectors (\<lambda>selector. Some [bare_image]) selectors = None"
  by (simp add: selectors_def bare_images)

text \<open>
  C9, as stated, fails: an image whose source is neither a profile nor an avatar picture
  and which has no \<open>width\<close> and no \<open>height\<close> attribute is not accepted, since a missing
  attribute is read as 0 and the area 0 is below the threshold. A page holding only
  this image yields no URL.
\<close>

theorem missing_dimensions_counterexample:
  "src bare_image = Some ''https://pbs.twimg.com/media/a.jpg'' \<and>
   \<not> sublist ''profile'' (lower ''https://pbs.twimg.com/media/a.jpg'') \<and>
   \<not> sublist ''avatar'' (lower ''https://pbs.twimg.com/media/a.jpg'') \<and>
   width bare_image = None \<and> height bare_image = None \<and>
   valid_image bare_image = None \<and>
   get_image_url_from_tweet (sample_page [bare_image]) 3 = None"
proof (intro conjI)
  show "\<not> sublist ''profile'' (lower ''https://pbs.twimg.com/media/a.jpg'')"
    by (simp add: bare_src_lower py_in_sublist [symmetric])
  show "\<not> sublist ''avatar'' (lower ''https://pbs.twimg.com/media/a.jpg'')"
    by (simp add: bare_src_lower py_in_sublist [symmetric])
  show "valid_image bare_image = None" by (rule bare_invalid)
  show "get_image_url_from_tweet (sample_page [bare_image]) 3 = None"
    by (simp add: get_image_url_from_tweet_def numeral_3_eq_3 sample_page_def bare_scan)
qed (simp_all add: bare_image_def)

lemma odd_src_lower:
  "lower ''https://pbs.twimg.com/media/c.jpg'' = ''https://pbs.twimg.com/media/c.jpg''"
  by (simp add: lower_def lower_char_def upper_chars_def lower_chars_def)

lemma separator_width_accepted:
  "valid_image \<lparr> src = Some ''https://pbs.twimg.com/media/c.jpg'',
                 width = Some (CHR 0x1F # ''200''), height = Some ''0'' \<rparr> =
     Some ''https://pbs.twimg.com/media/c.jpg''"
  by (simp add: valid_image_def dimension_def odd_src_lower py_int_separator)

theorem image_selection_witness:
  "valid_image odd_image = Some ''https://pbs.twimg.com/media/c.jpg'' \<and>
   scan_selectors (\<lambda>selector. Some [bare_image, sized_image]) selectors =
     Some ''https://pbs.twimg.com/media/b?format=jpg&name=large'' \<and>
   get_image_url_from_tweet (sample_page [bare_image, sized_image]) 3 =
     Some ''https://pbs.twimg.com/media/b?format=jpg&name=large'' \<and>
   dimension (Some ''auto'') = None \<and>
   large_format ''https://pbs.twimg.com/media/c.jpg'' = ''https://pbs.twimg.com/media/c.jpg''"
proof -
  let ?page = "\<lambda>selector :: string. Some [bare_image, sized_image]"
  let ?src = "''https://pbs.twimg.com/media/b?format=png&name=small''"
  note inst = image_selection [where e = "sized_image" and s = "?src" and skipped = "[]"
      and page = "?page" and selector = "hd selectors" and rest = "tl selectors"
      and before = "[bare_image]" and after = "[]"
      and driver = "sample_page [bare_image, sized_image]" and j = "0" and max_retries = "3"
      and a = "''https://pbs.twimg.com/media/b''" and c = "''png&name=small''"
      and url = "''https://pbs.twimg.com/media/c.jpg''" and d = "''auto''"]
  have sel: "[] @ hd selectors # tl selectors = selectors"
    by (simp add: selectors_def)
  have "\<not> sublist ''?format='' (''https://pbs.twimg.com/media/b'' @ ''?format'')"
    by (simp add: py_in_sublist [symmetric])
  with inst have lf: "large_format ?src = ''https://pbs.twimg.com/media/b?format=jpg&name=large''"
    by simp
  have "(\<forall>sel \<in> set []. ?page sel = None \<or> (\<exists>es. ?page sel = Some es \<and> valid_images es = [])) \<and>
    ?page (hd selectors) = Some ([bare_image] @ sized_image # []) \<and>
    (\<forall>b \<in> set [bare_image]. valid_image b = None) \<and> valid_image sized_image = Some ?src"
    by (simp add: bare_invalid sized_valid)
  with inst have "scan_selectors ?page ([] @ hd selectors # tl selectors) = Some (large_format ?src)"
    by blast
  then have scan: "scan_selectors ?page selectors = Some ''https://pbs.twimg.com/media/b?format=jpg&name=large''"
    by (simp only: sel lf)
  have "(\<forall>k < (0::nat). sample_page [bare_image, sized_image] k = LoadError \<or>
               (\<exists>p. sample_page [bare_image, sized_image] k = Loaded p \<and> scan_selectors p selectors = None)) \<and>
    (0::nat) < 3 \<and> sample_page [bare_image, sized_image] 0 = Loaded ?page \<and>
    scan_selectors ?page selectors = Some ''https://pbs.twimg.com/media/b?format=jpg&name=large''"
    using scan by (simp add: sample_page_def)
  then have get: "get_image_url_from_tweet (sample_page [bare_image, sized_image]) 3 =
     Some ''https://pbs.twimg.com/media/b?format=jpg&name=large''"
    by (rule image_selection [where page = "?page" and j = "0", THEN conjunct2, THEN conjunct2, THEN conjunct2,
          THEN conjunct2, THEN conjunct2, THEN conjunct1, rule_format])
  have "''auto'' \<noteq> []" by simp
  with inst have "dimension (Some ''auto'') = py_int ''auto''" by blast
  then have dim: "dimension (Some ''auto'') = None" by (simp only: odd_dim)
  have "\<not> sublist ''?format='' ''https://pbs.twimg.com/media/c.jpg''"
    by (simp add: py_in_sublist [symmetric])
  with inst have "large_format ''https://pbs.twimg.com/media/c.jpg'' = ''https://pbs.twimg.com/media/c.jpg''"
    by blast
  moreover have "src odd_image = Some ''https://pbs.twimg.com/media/c.jpg'' \<and>
      ''https://pbs.twimg.com/media/c.jpg'' \<noteq> [] \<and>
      \<not> sublist ''profile'' (lower ''https://pbs.twimg.com/media/c.jpg'') \<and>
      \<not> sublist ''avatar'' (lower ''https://pbs.twimg.com/media/c.jpg'') \<and>
      (dimension (width odd_image) = None \<or> dimension (height odd_image) = None \<or>
       (\<exists>w h. dimension (width odd_image) = Some w \<and> dimension (height odd_image) = Some h \<and> w * h > 10000))"
    by (simp add: odd_image_def odd_src_lower dimension_def odd_dim py_in_sublist [symmetric])
  then have "valid_image odd_image = Some ''https://pbs.twimg.com/media/c.jpg''"
    by (rule image_selection [where e = "odd_image" and s = "''https://pbs.twimg.com/media/c.jpg''",
          THEN conjunct1, THEN iffD2])
  ultimately show ?thesis using scan get dim by simp
qed

end
